theory Spec2Isabelle
  imports Main
begin

section \<open>Python values\<close>

text \<open>
  A Python \<open>str\<close> is a sequence of Unicode code points, so a string is a list of
  code points and \<open>length\<close> counts what Python's \<open>len\<close> counts. ASCII literals of
  the source are written \<open>ascii ''...''\<close>; the other code points of a literal are
  given by number.
\<close>

type_synonym pystr = "nat list"

definition ascii :: "string \<Rightarrow> pystr" where
  "ascii s = map of_char s"

text \<open>\<open>str.isspace\<close>: the code points \<open>str.strip()\<close> removes.\<close>

definition isspace :: "nat \<Rightarrow> bool" where
  "isspace c =
     ((9 \<le> c \<and> c \<le> 13) \<or> (28 \<le> c \<and> c \<le> 32) \<or> c = 0x85 \<or> c = 0xA0 \<or> c = 0x1680
      \<or> (0x2000 \<le> c \<and> c \<le> 0x200A) \<or> c = 0x2028 \<or> c = 0x2029 \<or> c = 0x202F
      \<or> c = 0x205F \<or> c = 0x3000)"

definition str_lstrip :: "pystr \<Rightarrow> pystr" where
  "str_lstrip s = dropWhile isspace s"

definition str_rstrip :: "pystr \<Rightarrow> pystr" where
  "str_rstrip s = rev (dropWhile isspace (rev s))"

definition str_strip :: "pystr \<Rightarrow> pystr" where
  "str_strip s = str_rstrip (str_lstrip s)"

text \<open>\<open>s.rstrip('/')\<close> and \<open>os.path.basename\<close> (the text after the last slash).\<close>

definition rstrip_slash :: "pystr \<Rightarrow> pystr" where
  "rstrip_slash s = rev (dropWhile (\<lambda>c. c = 0x2F) (rev s))"

definition basename :: "pystr \<Rightarrow> pystr" where
  "basename p = rev (takeWhile (\<lambda>c. c \<noteq> 0x2F) (rev p))"

text \<open>
  \<open>str.lower\<close>. The ASCII capitals go to their small letters. The Unicode table for
  the other code points is not reproduced: they are left as they are, and none of them
  is an ASCII capital, which is all the keyword test of \<open>format_stop_message\<close> can
  observe of them.
\<close>

definition lower_cp :: "nat \<Rightarrow> nat" where
  "lower_cp c = (if 0x41 \<le> c \<and> c \<le> 0x5A then c + 0x20 else c)"

definition str_lower :: "pystr \<Rightarrow> pystr" where
  "str_lower s = map lower_cp s"

text \<open>\<open>kw in s\<close> on strings: \<open>kw\<close> occurs in \<open>s\<close> as a contiguous run.\<close>

fun str_in :: "pystr \<Rightarrow> pystr \<Rightarrow> bool" where
  "str_in kw [] = (kw = [])"
| "str_in kw (c # cs) = (take (length kw) (c # cs) = kw \<or> str_in kw cs)"

text \<open>
  What \<open>json.loads\<close> returns. A dict is the list of its items, looked up with
  \<open>map_of\<close>. Of a number the program only observes whether it is zero and whether it
  equals 200, so a number is an integer here.
\<close>

datatype json =
    JNull
  | JBool bool
  | JNum int
  | JStr pystr
  | JArr "json list"
  | JObj "(pystr \<times> json) list"

text \<open>Python's truth value of an object, as \<open>if text:\<close> tests it.\<close>

fun truthy :: "json \<Rightarrow> bool" where
  "truthy JNull = False"
| "truthy (JBool b) = b"
| "truthy (JNum n) = (n \<noteq> 0)"
| "truthy (JStr s) = (s \<noteq> [])"
| "truthy (JArr xs) = (xs \<noteq> [])"
| "truthy (JObj kv) = (kv \<noteq> [])"

datatype exn = TypeError | AttributeError | OSError | JSONDecodeError | RequestException | HTTPError

section \<open>The world the script runs in\<close>

text \<open>
  The card sent to the chat webhook: the title and the colour template of its header and
  the markdown of its one body element. The other fields of the card are constants of
  the source.
\<close>

record card =
  header_title :: pystr
  header_template :: pystr
  body_content :: pystr

text \<open>Lines printed to stderr, and the two HTTP requests.\<close>

datatype diag =
    DebugNoFile pystr
  | DebugJsonError nat
  | DebugDone nat nat json
  | ReadFailed exn
  | PushFailedStatus
  | PushFailedCode
  | PushException exn
  | NoWebhookUrl
  | FeishuFailed exn

datatype effect =
    Stderr diag
  | BarkGet pystr pystr json
  | FeishuPost pystr card

text \<open>
  A line of the transcript as the reader meets it: blank after \<open>strip()\<close>, rejected by
  \<open>json.loads\<close> with \<open>JSONDecodeError\<close>, or parsed to a value. A path names nothing,
  or something \<open>open\<close> fails on, or a file that yields its lines; the flag says that
  reading fails after the last of them.
\<close>

datatype rline = Blank | Malformed | Parsed json

datatype fnode = NoSuchPath | OpenFails | Opens "rline list" bool

datatype bark_response = GetRaises | Response nat "json option"

datatype post_response = PostRaises | PostStatus nat

text \<open>
  The configuration globals, the file system (\<open>os.path.expanduser\<close> and what a path
  holds) and the answers of the two services to a request.
\<close>

record env =
  WEBHOOK_URL :: pystr
  IOS_PUSH_URL :: pystr
  IOS_PUSH_ENABLED :: bool
  expanduser :: "pystr \<Rightarrow> pystr"
  files :: "pystr \<Rightarrow> fnode"
  bark_get :: "pystr \<Rightarrow> json \<Rightarrow> bark_response"
  feishu_post :: "card \<Rightarrow> post_response"

section \<open>extract_last_message_from_jsonl\<close>

text \<open>The local variables of the scan, and what it has printed to stderr so far.\<close>

record scan_state =
  last_message_text :: json
  cwd :: json
  line_count :: nat
  message_count :: nat
  err :: "diag list"

text \<open>The \<open>if/elif\<close> chain over the places of the working directory: the value assigned, if any.\<close>

definition find_cwd :: "(pystr \<times> json) list \<Rightarrow> json option" where
  "find_cwd data =
     (if map_of data (ascii ''cwd'') \<noteq> None then map_of data (ascii ''cwd'')
      else if map_of data (ascii ''workspace'') \<noteq> None then map_of data (ascii ''workspace'')
      else if map_of data (ascii ''workingDirectory'') \<noteq> None
        then map_of data (ascii ''workingDirectory'')
      else (case map_of data (ascii ''message'') of
              Some (JObj m) \<Rightarrow> map_of m (ascii ''cwd'')
            | _ \<Rightarrow> None))"

text \<open>The loop over \<open>message['content']\<close>.\<close>

fun scan_content :: "scan_state \<Rightarrow> json list \<Rightarrow> scan_state" where
  "scan_content st [] = st"
| "scan_content st (JObj content_item # items) =
     (if map_of content_item (ascii ''type'') = Some (JStr (ascii ''text'')) then
        (let t = (case map_of content_item (ascii ''text'') of Some v \<Rightarrow> v | None \<Rightarrow> JStr [])
         in if truthy t
            then scan_content (st\<lparr>last_message_text := t, message_count := message_count st + 1\<rparr>) items
            else scan_content st items)
      else scan_content st items)"
| "scan_content st (_ # items) = scan_content st items"

text \<open>
  The body of the inner \<open>try\<close> after \<open>json.loads\<close>. On a value that is not a dict the
  first \<open>in\<close> or \<open>get\<close> raises: \<open>TypeError\<close> on a number, a boolean or \<open>None\<close>,
  \<open>AttributeError\<close> on a string or a list.
\<close>

fun process_data :: "scan_state \<Rightarrow> json \<Rightarrow> exn + scan_state" where
  "process_data st (JObj data) =
     (let st1 = (case find_cwd data of Some v \<Rightarrow> st\<lparr>cwd := v\<rparr> | None \<Rightarrow> st)
      in Inr (case map_of data (ascii ''message'') of
                Some (JObj m) \<Rightarrow>
                  (case map_of m (ascii ''content'') of
                     Some (JArr items) \<Rightarrow> scan_content st1 items
                   | _ \<Rightarrow> st1)
              | _ \<Rightarrow> st1))"
| "process_data st (JStr _) = Inl AttributeError"
| "process_data st (JArr _) = Inl AttributeError"
| "process_data st _ = Inl TypeError"

fun process_line :: "scan_state \<Rightarrow> rline \<Rightarrow> exn + scan_state" where
  "process_line st Blank = Inr st"
| "process_line st Malformed =
     Inr (st\<lparr>line_count := line_count st + 1,
             err := err st @ [DebugJsonError (line_count st + 1)]\<rparr>)"
| "process_line st (Parsed data) = process_data (st\<lparr>line_count := line_count st + 1\<rparr>) data"

text \<open>
  The loop over the lines of the file: the state reached, and the exception that left the
  loop, if one did (only \<open>JSONDecodeError\<close> is caught inside it).
\<close>

fun scan_lines :: "scan_state \<Rightarrow> rline list \<Rightarrow> scan_state \<times> exn option" where
  "scan_lines st [] = (st, None)"
| "scan_lines st (l # ls) =
     (case process_line st l of
        Inl e \<Rightarrow> (st, Some e)
      | Inr st' \<Rightarrow> scan_lines st' ls)"

definition scan_init :: scan_state where
  "scan_init = \<lparr>last_message_text = JStr [], cwd = JStr [], line_count = 0, message_count = 0, err = []\<rparr>"

definition empty_result :: "json \<times> json" where
  "empty_result = (JStr [], JStr [])"

text \<open>The function: the pair it returns and the lines it prints to stderr.\<close>

definition extract_last_message_from_jsonl :: "env \<Rightarrow> pystr \<Rightarrow> (json \<times> json) \<times> diag list" where
  "extract_last_message_from_jsonl env transcript_path =
     (let expanded_path = expanduser env transcript_path in
      case files env expanded_path of
        NoSuchPath \<Rightarrow> (empty_result, [DebugNoFile expanded_path])
      | OpenFails \<Rightarrow> (empty_result, [ReadFailed OSError])
      | Opens ls read_fails \<Rightarrow>
          (case scan_lines scan_init ls of
             (st, Some e) \<Rightarrow> (empty_result, err st @ [ReadFailed e])
           | (st, None) \<Rightarrow>
               if read_fails then (empty_result, err st @ [ReadFailed OSError])
               else ((last_message_text st, cwd st),
                     err st @ [DebugDone (line_count st) (message_count st) (cwd st)])))"

section \<open>format_stop_message\<close>

text \<open>
  The hook event read from stdin: a JSON object whose fields, where present, have the
  types the hook documents (strings, and a boolean for \<open>stop_hook_active\<close>). Of
  \<open>notification\<close> and \<open>message\<close> the script only tests the presence.
\<close>

record hook_data =
  event_type :: "pystr option"
  session_id :: "pystr option"
  stop_hook_active :: "bool option"
  transcript_path :: "pystr option"
  notification :: "json option"
  message :: "json option"

definition present :: "'a option \<Rightarrow> bool" where
  "present x = (x \<noteq> None)"

text \<open>The literals of the function.\<close>

definition error_keywords :: "pystr list" where
  "error_keywords = [ascii ''API Error:'']"

definition warning_banner :: pystr where
  "warning_banner = ascii ''**'' @ [0x26A0, 0xFE0F] @ ascii '' '' @ [0x8B66, 0x544A]
     @ ascii '':** Stop hook '' @ [0x4ECD, 0x5728, 0x6FC0, 0x6D3B, 0x72B6, 0x6001]"

definition warning_line :: pystr where
  "warning_line = warning_banner @ ascii ''\<newline>\<newline>''"

definition truncation_marker :: pystr where
  "truncation_marker = ascii ''...\<newline>\<newline>*'' @ [0x1F4A1] @ ascii '' ''
     @ [0x5B8C, 0x6574, 0x5185, 0x5BB9, 0x8BF7, 0x67E5, 0x770B, 0x7EC8, 0x7AEF] @ ascii ''*''"

definition debug_path :: "pystr \<Rightarrow> pystr" where
  "debug_path p = ascii ''**'' @ [0x1F4C1] @ ascii '' Debug - JSONL'' @ [0x8DEF, 0x5F84]
     @ ascii '':**\<newline>'' @ [0x60] @ p @ [0x60]"

definition no_path_notice :: pystr where
  "no_path_notice = ascii ''**'' @ [0x26A0, 0xFE0F] @ ascii '' Debug:** ''
     @ [0x672A, 0x63D0, 0x4F9B] @ ascii '' transcript_path''"

definition label_project :: "pystr \<Rightarrow> pystr" where
  "label_project project_name = ascii ''<font size=2>'' @ [0x1F4C2] @ ascii '' ''
     @ [0x9879, 0x76EE] @ ascii '': '' @ project_name @ ascii ''</font>\<newline>''"

definition label_path :: "pystr \<Rightarrow> pystr" where
  "label_path p = ascii ''<font size=2>'' @ [0x1F4C2] @ ascii '' ''
     @ [0x8DEF, 0x5F84] @ ascii '': '' @ p @ ascii ''</font>\<newline>''"

definition title_failed :: pystr where
  "title_failed = [0x274C] @ ascii '' '' @ [0x4EFB, 0x52A1, 0x5F02, 0x5E38]"

definition title_completed :: pystr where
  "title_completed = [0x2705] @ ascii '' '' @ [0x4EFB, 0x52A1, 0x5B8C, 0x6210]"

text \<open>Lines 160-172: the keyword loop, on the lowered message.\<close>

fun any_keyword_in :: "pystr list \<Rightarrow> pystr \<Rightarrow> bool" where
  "any_keyword_in [] lower_msg = False"
| "any_keyword_in (kw # kws) lower_msg =
     (if str_in kw lower_msg then True else any_keyword_in kws lower_msg)"

definition detect_error :: "json \<Rightarrow> exn + bool" where
  "detect_error last_message =
     (if truthy last_message then
        (case last_message of
           JStr s \<Rightarrow> Inr (any_keyword_in error_keywords (str_lower s))
         | _ \<Rightarrow> Inl AttributeError)
      else Inr False)"

text \<open>
  Lines 181-195: what is appended to \<open>content\<close> for the message. On a true value that
  is not a string \<open>len\<close> or the concatenation raises \<open>TypeError\<close>.
\<close>

definition fallback_text :: "pystr \<Rightarrow> pystr \<Rightarrow> pystr" where
  "fallback_text sid path =
     ascii ''Session '' @ take 8 sid @ ascii ''... '' @ [0x5DF2, 0x7ED3, 0x675F]
       @ ascii ''\<newline>\<newline>''
       @ (if path \<noteq> [] then debug_path path else no_path_notice)"

fun message_block :: "pystr \<Rightarrow> pystr \<Rightarrow> json \<Rightarrow> exn + pystr" where
  "message_block sid path (JStr s) =
     Inr (if s \<noteq> [] then
            (if length s > 1000 then take 1000 s @ truncation_marker else s)
          else fallback_text sid path)"
| "message_block sid path v = (if truthy v then Inl TypeError else Inr (fallback_text sid path))"

text \<open>
  Lines 197-204: what is put in front of \<open>content\<close> for the working directory. On a
  true value that is not a string \<open>rstrip\<close> raises \<open>AttributeError\<close>.
\<close>

fun project_label :: "json \<Rightarrow> exn + pystr" where
  "project_label (JStr c) =
     Inr (if c \<noteq> [] then
            (let project_name = basename (rstrip_slash c)
             in if project_name \<noteq> [] then label_project project_name else label_path c)
          else [])"
| "project_label v = (if truthy v then Inl AttributeError else Inr [])"

text \<open>Lines 206-212.\<close>

definition card_header :: "bool \<Rightarrow> pystr \<times> pystr" where
  "card_header is_error =
     (if is_error then (title_failed, ascii ''red'') else (title_completed, ascii ''green''))"

text \<open>The function from line 160 on, given what the extraction returned.\<close>

definition format_card :: "pystr \<Rightarrow> bool \<Rightarrow> pystr \<Rightarrow> json \<Rightarrow> json \<Rightarrow> exn + card" where
  "format_card sid active path last_message wd =
     (case detect_error last_message of
        Inl e \<Rightarrow> Inl e
      | Inr is_error \<Rightarrow>
          (case message_block sid path last_message of
             Inl e \<Rightarrow> Inl e
           | Inr m \<Rightarrow>
               (case project_label wd of
                  Inl e \<Rightarrow> Inl e
                | Inr label \<Rightarrow>
                    Inr \<lparr>header_title = fst (card_header is_error),
                         header_template = snd (card_header is_error),
                         body_content =
                           str_strip (label @ (if active then warning_line else []) @ m)\<rparr>)))"

text \<open>Lines 150-158: the extraction, when the event names a transcript.\<close>

definition stop_extraction :: "env \<Rightarrow> hook_data \<Rightarrow> (json \<times> json) \<times> diag list" where
  "stop_extraction env data =
     (let path = (case transcript_path data of Some p \<Rightarrow> p | None \<Rightarrow> [])
      in if path \<noteq> [] then extract_last_message_from_jsonl env path else (empty_result, []))"

definition format_stop_message :: "env \<Rightarrow> hook_data \<Rightarrow> (exn + card) \<times> diag list" where
  "format_stop_message env data =
     (let sid = (case session_id data of Some s \<Rightarrow> s | None \<Rightarrow> ascii ''Unknown Session'');
          active = (case stop_hook_active data of Some b \<Rightarrow> b | None \<Rightarrow> False);
          path = (case transcript_path data of Some p \<Rightarrow> p | None \<Rightarrow> []);
          ex = stop_extraction env data
      in (format_card sid active path (fst (fst ex)) (snd (fst ex)), snd ex))"

section \<open>The two channels\<close>

definition emoji_class :: "nat list" where
  "emoji_class = [0x1F6A8, 0x23F8, 0xFE0F, 0x274C, 0x2705, 0x1F916, 0x1F527, 0x1F4E2,
     0x1F6D1, 0x1F680, 0x1F4DD, 0x26A0, 0xFE0F, 0x2139, 0xFE0F]"

definition formatted_title :: "pystr \<Rightarrow> pystr" where
  "formatted_title title =
     [0x1F916] @ ascii '' '' @ str_strip (filter (\<lambda>c. c \<notin> set emoji_class) title)"

text \<open>
  \<open>send_ios_push_notification\<close>: nothing when the channel is off or has no URL; else
  one GET, whose every failure ends in a line on stderr. The request is recorded with the
  configured URL, the formatted title and the message; the time of day appended to the
  message and the percent-encoding of the URL are not modelled.
\<close>

definition send_ios_push_notification :: "env \<Rightarrow> pystr \<Rightarrow> json \<Rightarrow> effect list" where
  "send_ios_push_notification env title msg =
     (if IOS_PUSH_ENABLED env \<and> IOS_PUSH_URL env \<noteq> [] then
        BarkGet (IOS_PUSH_URL env) (formatted_title title) msg #
          (case bark_get env (formatted_title title) msg of
             GetRaises \<Rightarrow> [Stderr (PushException RequestException)]
           | Response status body \<Rightarrow>
               if status \<noteq> 200 then [Stderr PushFailedStatus]
               else (case body of
                       None \<Rightarrow> [Stderr (PushException JSONDecodeError)]
                     | Some (JObj result) \<Rightarrow>
                         if map_of result (ascii ''code'') \<noteq> Some (JNum 200)
                         then [Stderr PushFailedCode] else []
                     | Some _ \<Rightarrow> [Stderr (PushException AttributeError)]))
      else [])"

text \<open>
  \<open>send_to_feishu\<close>: whether the card was delivered. \<open>raise_for_status\<close> raises on a
  status from 400 to 599.
\<close>

definition send_to_feishu :: "env \<Rightarrow> card \<Rightarrow> bool \<times> effect list" where
  "send_to_feishu env c =
     (if WEBHOOK_URL env = [] then (False, [Stderr NoWebhookUrl])
      else (case feishu_post env c of
              PostRaises \<Rightarrow>
                (False, [FeishuPost (WEBHOOK_URL env) c, Stderr (FeishuFailed RequestException)])
            | PostStatus status \<Rightarrow>
                if 400 \<le> status \<and> status < 600
                then (False, [FeishuPost (WEBHOOK_URL env) c, Stderr (FeishuFailed HTTPError)])
                else (True, [FeishuPost (WEBHOOK_URL env) c])))"

section \<open>main\<close>

text \<open>The object printed to stdout; \<open>StrOf e\<close> is \<open>str(e)\<close> of a caught exception.\<close>

datatype errtext = Msg pystr | StrOf exn

record result =
  res_success :: bool
  res_message :: "pystr option"
  res_error :: "errtext option"

definition push_title :: pystr where
  "push_title = [0x4EFB, 0x52A1, 0x5B8C, 0x6210]"

definition session_ended :: pystr where
  "session_ended = ascii ''Session '' @ [0x5DF2, 0x7ED3, 0x675F]"

definition ignored_prefix :: pystr where
  "ignored_prefix = [0x5FFD, 0x7565, 0x4E8B, 0x4EF6, 0x7C7B, 0x578B, 0xFF1A]"

definition feishu_failed :: pystr where
  "feishu_failed = [0x53D1, 0x9001, 0x5230, 0x98DE, 0x4E66, 0x5931, 0x8D25]"

definition ok_result :: result where
  "ok_result = \<lparr>res_success = True, res_message = None, res_error = None\<rparr>"

definition ignored_result :: "pystr \<Rightarrow> result" where
  "ignored_result et =
     \<lparr>res_success = True, res_message = Some (ignored_prefix @ et), res_error = None\<rparr>"

definition failed_result :: "errtext \<Rightarrow> result" where
  "failed_result e = \<lparr>res_success = False, res_message = None, res_error = Some e\<rparr>"

text \<open>Lines 374-382: the event type, read or inferred.\<close>

definition resolve_event_type :: "hook_data \<Rightarrow> pystr" where
  "resolve_event_type hook =
     (let et = (case event_type hook of Some t \<Rightarrow> t | None \<Rightarrow> ascii ''Unknown'') in
      if et = ascii ''Unknown'' then
        (if present (stop_hook_active hook) then ascii ''Stop''
         else if present (notification hook) \<or> present (message hook) then ascii ''Notification''
         else et)
      else et)"

text \<open>\<open>x[:n]\<close>: a string or a list can be sliced.\<close>

fun slice_to :: "nat \<Rightarrow> json \<Rightarrow> exn + json" where
  "slice_to n (JStr s) = Inr (JStr (take n s))"
| "slice_to n (JArr xs) = Inr (JArr (take n xs))"
| "slice_to n v = Inl TypeError"

text \<open>Lines 389-399: the push of a Stop event, and the exception that ended it, if any.\<close>

definition push_stop :: "env \<Rightarrow> hook_data \<Rightarrow> effect list \<times> exn option" where
  "push_stop env hook =
     (let path = (case transcript_path hook of Some p \<Rightarrow> p | None \<Rightarrow> []) in
      if path \<noteq> [] then
        (let ex = extract_last_message_from_jsonl env path in
         if truthy (fst (fst ex)) then
           (case slice_to 100 (fst (fst ex)) of
              Inl e \<Rightarrow> (map Stderr (snd ex), Some e)
            | Inr m \<Rightarrow>
                (map Stderr (snd ex) @ send_ios_push_notification env push_title m, None))
         else (map Stderr (snd ex)
                 @ send_ios_push_notification env push_title (JStr session_ended), None))
      else (send_ios_push_notification env push_title (JStr session_ended), None))"

text \<open>The Stop branch, then lines 415-424; an exception on the way goes to the handler of line 426.\<close>

definition handle_stop :: "env \<Rightarrow> hook_data \<Rightarrow> effect list \<times> result \<times> nat" where
  "handle_stop env hook =
     (case format_stop_message env hook of
        (Inl e, errs) \<Rightarrow> (map Stderr errs, failed_result (StrOf e), 1)
      | (Inr c, errs) \<Rightarrow>
          (case push_stop env hook of
             (fx, Some e) \<Rightarrow> (map Stderr errs @ fx, failed_result (StrOf e), 1)
           | (fx, None) \<Rightarrow>
               (case send_to_feishu env c of
                  (True, fx') \<Rightarrow> (map Stderr errs @ fx @ fx', ok_result, 0)
                | (False, fx') \<Rightarrow>
                    (map Stderr errs @ fx @ fx', failed_result (Msg feishu_failed), 1))))"

text \<open>
  \<open>main\<close> on what \<open>json.load(sys.stdin)\<close> gives (\<open>None\<close>: it raised): the effects in
  order, the object printed to stdout and the exit code.
\<close>

definition main :: "env \<Rightarrow> hook_data option \<Rightarrow> effect list \<times> result \<times> nat" where
  "main env stdin =
     (case stdin of
        None \<Rightarrow> ([], failed_result (StrOf JSONDecodeError), 1)
      | Some hook \<Rightarrow>
          (let et = resolve_event_type hook in
           if et = ascii ''Stop'' then handle_stop env hook
           else ([], ignored_result et, 0)))"

section \<open>The log reader, stated declaratively\<close>

text \<open>
  A valid log: every line is blank or parses to a JSON object. Its records are the
  objects, in file order.
\<close>

fun line_object :: "rline \<Rightarrow> (pystr \<times> json) list option" where
  "line_object (Parsed (JObj d)) = Some d"
| "line_object l = None"

definition valid_log :: "rline list \<Rightarrow> bool" where
  "valid_log ls = list_all (\<lambda>l. l = Blank \<or> present (line_object l)) ls"

definition objects_of :: "rline list \<Rightarrow> (pystr \<times> json) list list" where
  "objects_of ls = List.map_filter line_object ls"

text \<open>
  The text of a qualifying content item: an object whose \<open>type\<close> is \<open>"text"\<close> and
  whose \<open>text\<close> is non-empty (true, as Python tests it). The qualifying texts of a
  record are those of its \<open>message.content\<close> sequence, in sequence order, and those of
  a log are those of its records, in file order.
\<close>

definition qualifying_text :: "json \<Rightarrow> json option" where
  "qualifying_text item =
     (case item of
        JObj it \<Rightarrow>
          (if map_of it (ascii ''type'') = Some (JStr (ascii ''text'')) then
             (case map_of it (ascii ''text'') of
                Some t \<Rightarrow> if truthy t then Some t else None
              | None \<Rightarrow> None)
           else None)
      | _ \<Rightarrow> None)"

definition line_texts :: "(pystr \<times> json) list \<Rightarrow> json list" where
  "line_texts d =
     (case map_of d (ascii ''message'') of
        Some (JObj m) \<Rightarrow>
          (case map_of m (ascii ''content'') of
             Some (JArr items) \<Rightarrow> List.map_filter qualifying_text items
           | _ \<Rightarrow> [])
      | _ \<Rightarrow> [])"

definition log_texts :: "rline list \<Rightarrow> json list" where
  "log_texts ls = concat (map line_texts (objects_of ls))"

text \<open>
  The recognized places of the working directory in a record, in precedence order, and
  the value of the first place that is present.
\<close>

definition cwd_candidates :: "(pystr \<times> json) list \<Rightarrow> json option list" where
  "cwd_candidates d =
     [map_of d (ascii ''cwd''), map_of d (ascii ''workspace''),
      map_of d (ascii ''workingDirectory''),
      (case map_of d (ascii ''message'') of
         Some (JObj m) \<Rightarrow> map_of m (ascii ''cwd'')
       | _ \<Rightarrow> None)]"

definition first_present :: "'a option list \<Rightarrow> 'a option" where
  "first_present cs = (case filter present cs of [] \<Rightarrow> None | c # _ \<Rightarrow> c)"

definition line_cwd :: "(pystr \<times> json) list \<Rightarrow> json option" where
  "line_cwd d = first_present (cwd_candidates d)"

text \<open>
  Two readings of "the working directory of a log": the value of the last record that
  has one of the places present, and the last such value that is not the empty string.
  Both are the empty string when there is none.
\<close>

definition last_present_cwd :: "rline list \<Rightarrow> json" where
  "last_present_cwd ls = last (JStr [] # List.map_filter line_cwd (objects_of ls))"

definition last_nonempty_cwd :: "rline list \<Rightarrow> json" where
  "last_nonempty_cwd ls =
     last (JStr [] # filter (\<lambda>v. v \<noteq> JStr []) (List.map_filter line_cwd (objects_of ls)))"

section \<open>Example transcripts, events and environments\<close>

definition text_item :: "pystr \<Rightarrow> json" where
  "text_item s = JObj [(ascii ''type'', JStr (ascii ''text'')), (ascii ''text'', JStr s)]"

definition text_line :: "pystr \<Rightarrow> rline" where
  "text_line s = Parsed (JObj [(ascii ''message'', JObj [(ascii ''content'', JArr [text_item s])])])"

definition cwd_line :: "pystr \<Rightarrow> rline" where
  "cwd_line s = Parsed (JObj [(ascii ''cwd'', JStr s)])"

definition log_path :: pystr where
  "log_path = ascii ''/t.jsonl''"

text \<open>
  An environment with both channels configured, one file at \<open>log_path\<close> and fixed
  answers of the two services.
\<close>

definition sample_env :: "fnode \<Rightarrow> bark_response \<Rightarrow> post_response \<Rightarrow> env" where
  "sample_env node b f =
     \<lparr>WEBHOOK_URL = ascii ''https://hook.example'', IOS_PUSH_URL = ascii ''key'',
      IOS_PUSH_ENABLED = True, expanduser = (\<lambda>p. p),
      files = (\<lambda>p. if p = log_path then node else NoSuchPath),
      bark_get = (\<lambda>t m. b), feishu_post = (\<lambda>c. f)\<rparr>"

definition file_env :: "rline list \<Rightarrow> env" where
  "file_env ls = sample_env (Opens ls False) (Response 200 (Some (JObj [(ascii ''code'', JNum 200)]))) (PostStatus 200)"

definition stop_event :: "bool \<Rightarrow> pystr option \<Rightarrow> hook_data" where
  "stop_event active path =
     \<lparr>event_type = Some (ascii ''Stop''), session_id = Some (ascii ''0123456789abcdef''),
      stop_hook_active = Some active, transcript_path = path,
      notification = None, message = None\<rparr>"

text \<open>Transcripts used below.\<close>

definition three_texts_log :: "rline list" where
  "three_texts_log =
     [text_line (ascii ''first''), Blank,
      Parsed (JObj [(ascii ''message'', JObj [(ascii ''content'',
        JArr [text_item (ascii ''second''), text_item (ascii ''third''), text_item []])])]),
      text_line []]"

definition cwd_reset_log :: "rline list" where
  "cwd_reset_log = [cwd_line (ascii ''/a''), cwd_line []]"

definition places_log :: "rline list" where
  "places_log =
     [Parsed (JObj [(ascii ''workspace'', JStr (ascii ''/w'')), (ascii ''cwd'', JStr (ascii ''/c''))]),
      text_line (ascii ''hi''),
      Parsed (JObj [(ascii ''message'', JObj [(ascii ''cwd'', JStr (ascii ''/m''))])]),
      Blank]"

definition null_line_log :: "rline list" where
  "null_line_log = [text_line (ascii ''hello''), Parsed JNull]"

definition corrupt_log :: "rline list" where
  "corrupt_log =
     [text_line (ascii ''first''), Malformed, cwd_line (ascii ''/home/u/proj''), Malformed,
      text_line (ascii ''last'')]"

text \<open>Messages of 1001 characters: \<open>a\<close> repeated, and a space before 1000 \<open>a\<close>.\<close>

definition long_message :: pystr where
  "long_message = replicate 1001 0x61"

definition spaced_message :: pystr where
  "spaced_message = 0x20 # replicate 1000 0x61"

section \<open>Observations on a run of main\<close>

text \<open>
  The requests of a run, by channel: the cards posted to the webhook (with the URL) and
  the push requests (URL, title, message).
\<close>

fun webhook_posts :: "effect list \<Rightarrow> (pystr \<times> card) list" where
  "webhook_posts [] = []"
| "webhook_posts (FeishuPost u c # fx) = (u, c) # webhook_posts fx"
| "webhook_posts (_ # fx) = webhook_posts fx"

fun push_requests :: "effect list \<Rightarrow> (pystr \<times> pystr \<times> json) list" where
  "push_requests [] = []"
| "push_requests (BarkGet u t m # fx) = (u, t, m) # push_requests fx"
| "push_requests (_ # fx) = push_requests fx"

text \<open>
  The webhook delivery succeeded: a card was posted and the answer was not an exception
  nor a status that \<open>raise_for_status\<close> rejects.
\<close>

fun accepted :: "post_response \<Rightarrow> bool" where
  "accepted PostRaises = False"
| "accepted (PostStatus status) = (status < 400 \<or> 600 \<le> status)"

definition webhook_delivered :: "env \<Rightarrow> effect list \<Rightarrow> bool" where
  "webhook_delivered env fx = list_ex (\<lambda>uc. accepted (feishu_post env (snd uc))) (webhook_posts fx)"

text \<open>Events that are not Stop events.\<close>

definition notification_event :: hook_data where
  "notification_event =
     \<lparr>event_type = None, session_id = Some (ascii ''0123456789abcdef''),
      stop_hook_active = None, transcript_path = Some log_path,
      notification = None, message = Some (JStr (ascii ''waiting for input''))\<rparr>"

definition tool_event :: hook_data where
  "tool_event =
     \<lparr>event_type = Some (ascii ''ToolUse''), session_id = Some (ascii ''0123456789abcdef''),
      stop_hook_active = Some True, transcript_path = Some log_path,
      notification = None, message = None\<rparr>"

text \<open>A Stop event on a one-line transcript, and the card it is formatted to.\<close>

definition done_env :: "bark_response \<Rightarrow> post_response \<Rightarrow> env" where
  "done_env b f = sample_env (Opens [text_line (ascii ''API Error: boom'')] False) b f"

definition done_event :: hook_data where
  "done_event = stop_event False (Some log_path)"

definition done_card :: card where
  "done_card = \<lparr>header_title = title_completed, header_template = ascii ''green'',
                 body_content = ascii ''API Error: boom''\<rparr>"

section \<open>Properties\<close>

subsection \<open>Unfolding the examples\<close>

lemmas sample_defs =
  text_line_def text_item_def cwd_line_def log_path_def sample_env_def file_env_def stop_event_def

lemmas extract_defs =
  extract_last_message_from_jsonl_def scan_init_def empty_result_def find_cwd_def Let_def

subsection \<open>The scan of a valid log\<close>

lemma find_cwd_line_cwd: "find_cwd d = line_cwd d"
  by (auto simp: find_cwd_def line_cwd_def first_present_def cwd_candidates_def present_def
           split: option.splits json.splits)

lemma scan_content_cwd: "cwd (scan_content st items) = cwd st"
  by (induction st items rule: scan_content.induct) (auto simp: Let_def)

lemma scan_content_text:
  "last_message_text (scan_content st items) =
     last (last_message_text st # List.map_filter qualifying_text items)"
  by (induction st items rule: scan_content.induct)
     (auto simp: Let_def map_filter_simps qualifying_text_def split: option.splits)

lemma process_object_text:
  "process_data st (JObj d) = Inr st' \<Longrightarrow>
     last_message_text st' = last (last_message_text st # line_texts d)"
  by (auto simp: Let_def line_texts_def scan_content_text split: option.splits json.splits)

lemma process_object_cwd:
  "process_data st (JObj d) = Inr st' \<Longrightarrow>
     cwd st' = (case line_cwd d of Some v \<Rightarrow> v | None \<Rightarrow> cwd st)"
  by (auto simp: Let_def scan_content_cwd find_cwd_line_cwd split: option.splits json.splits)

lemma process_object_returns: "\<exists>st'. process_data st (JObj d) = Inr st'"
  by (simp add: Let_def)

lemma scan_valid_log:
  "valid_log ls \<Longrightarrow>
     snd (scan_lines st ls) = None \<and>
     last_message_text (fst (scan_lines st ls)) =
       last (last_message_text st # concat (map line_texts (objects_of ls))) \<and>
     cwd (fst (scan_lines st ls)) =
       last (cwd st # List.map_filter line_cwd (objects_of ls))"
proof (induction ls arbitrary: st)
  case Nil
  then show ?case by (simp add: objects_of_def map_filter_simps)
next
  case (Cons l ls)
  from Cons.prems have vl: "l = Blank \<or> present (line_object l)" and vls: "valid_log ls"
    by (simp_all add: valid_log_def)
  show ?case
  proof (cases "l = Blank")
    case True
    with Cons.IH [OF vls, of st] show ?thesis
      by (simp add: objects_of_def map_filter_simps)
  next
    case False
    with vl obtain d where l: "l = Parsed (JObj d)"
      by (cases l rule: line_object.cases) (auto simp: present_def)
    obtain st' where p: "process_data (st\<lparr>line_count := line_count st + 1\<rparr>) (JObj d) = Inr st'"
      using process_object_returns by blast
    have t: "last_message_text st' = last (last_message_text st # line_texts d)"
      using process_object_text [OF p] by simp
    have c: "cwd st' = (case line_cwd d of Some v \<Rightarrow> v | None \<Rightarrow> cwd st)"
      using process_object_cwd [OF p] by (simp split: option.splits)
    have o: "objects_of (l # ls) = d # objects_of ls"
      by (simp add: l objects_of_def map_filter_simps)
    have s: "scan_lines st (l # ls) = scan_lines st' ls"
      using p by (simp add: l del: process_data.simps)
    show ?thesis
      unfolding s o using Cons.IH [OF vls, of st'] t c
      by (auto simp: map_filter_simps split: option.splits)
  qed
qed

text \<open>
  C4. On a valid log the extraction returns the last qualifying text, lines taken in file
  order and the items of a line in sequence order, whatever the earlier ones hold; it
  returns the empty string when no item qualifies, so an item with an empty text never
  takes the place of an earlier text.
\<close>

theorem extract_returns_last_text:
  assumes "files env (expanduser env p) = Opens ls False" and "valid_log ls"
  shows "fst (fst (extract_last_message_from_jsonl env p)) =
           (if log_texts ls = [] then JStr [] else last (log_texts ls))"
proof -
  obtain st e where s: "scan_lines scan_init ls = (st, e)"
    by (cases "scan_lines scan_init ls")
  from scan_valid_log [OF assms(2), of scan_init] s
  have "e = None" and "last_message_text st = last (JStr [] # log_texts ls)"
    by (simp_all add: scan_init_def log_texts_def)
  with assms(1) s have "fst (fst (extract_last_message_from_jsonl env p))
                          = last (JStr [] # log_texts ls)"
    by (simp add: extract_last_message_from_jsonl_def)
  then show ?thesis
    by simp
qed

theorem extract_returns_last_text_witness:
  "files (file_env three_texts_log) (expanduser (file_env three_texts_log) log_path)
     = Opens three_texts_log False
   \<and> valid_log three_texts_log
   \<and> fst (fst (extract_last_message_from_jsonl (file_env three_texts_log) log_path))
       = JStr (ascii ''third'')"
proof -
  have f: "files (file_env three_texts_log) (expanduser (file_env three_texts_log) log_path)
             = Opens three_texts_log False"
    by (simp add: sample_defs)
  have v: "valid_log three_texts_log"
    by (simp add: valid_log_def present_def three_texts_log_def sample_defs)
  have t: "log_texts three_texts_log
             = [JStr (ascii ''first''), JStr (ascii ''second''), JStr (ascii ''third'')]"
    by (simp add: log_texts_def objects_of_def line_texts_def qualifying_text_def
          map_filter_simps three_texts_log_def sample_defs ascii_def)
  from extract_returns_last_text [OF f v] t f v show ?thesis
    by simp
qed

text \<open>
  C2, as the code has it. On a valid log the working directory returned is the value of
  the last record in which one of the recognized places is present, the first present
  place in the order \<open>cwd\<close>, \<open>workspace\<close>, \<open>workingDirectory\<close>, \<open>message.cwd\<close>
  deciding within a record; it is the empty string when no record has one. The value is
  taken as it is, empty or not.
\<close>

theorem extract_returns_last_present_cwd:
  assumes "files env (expanduser env p) = Opens ls False" and "valid_log ls"
  shows "snd (fst (extract_last_message_from_jsonl env p)) = last_present_cwd ls"
proof -
  obtain st e where s: "scan_lines scan_init ls = (st, e)"
    by (cases "scan_lines scan_init ls")
  from scan_valid_log [OF assms(2), of scan_init] s
  have "e = None" and "cwd st = last_present_cwd ls"
    by (simp_all add: scan_init_def last_present_cwd_def)
  with assms(1) s show ?thesis
    by (simp add: extract_last_message_from_jsonl_def)
qed

theorem extract_returns_last_present_cwd_witness:
  "files (file_env places_log) (expanduser (file_env places_log) log_path)
     = Opens places_log False
   \<and> valid_log places_log
   \<and> List.map_filter line_cwd (objects_of places_log) = [JStr (ascii ''/c''), JStr (ascii ''/m'')]
   \<and> snd (fst (extract_last_message_from_jsonl (file_env places_log) log_path))
       = JStr (ascii ''/m'')"
proof -
  have f: "files (file_env places_log) (expanduser (file_env places_log) log_path)
             = Opens places_log False"
    by (simp add: sample_defs)
  have v: "valid_log places_log"
    by (simp add: valid_log_def present_def places_log_def sample_defs)
  have c: "List.map_filter line_cwd (objects_of places_log)
             = [JStr (ascii ''/c''), JStr (ascii ''/m'')]"
    by (simp add: objects_of_def line_cwd_def cwd_candidates_def first_present_def
          present_def map_filter_simps places_log_def sample_defs ascii_def)
  from extract_returns_last_present_cwd [OF f v] c f v show ?thesis
    by (simp add: last_present_cwd_def)
qed

text \<open>
  C2, as the claim states it, fails: after a record with \<open>"cwd": "/a"\<close> a record with
  \<open>"cwd": ""\<close> sets the accumulator to the empty string, where the last non-empty
  value is \<open>"/a"\<close>.
\<close>

theorem empty_cwd_overwrites:
  "valid_log cwd_reset_log
   \<and> snd (fst (extract_last_message_from_jsonl (file_env cwd_reset_log) log_path)) = JStr []
   \<and> last_nonempty_cwd cwd_reset_log = JStr (ascii ''/a'')"
proof -
  have "valid_log cwd_reset_log"
    by (simp add: valid_log_def present_def cwd_reset_log_def sample_defs)
  moreover have "snd (fst (extract_last_message_from_jsonl (file_env cwd_reset_log) log_path))
                   = JStr []"
    by (simp add: extract_defs cwd_reset_log_def sample_defs ascii_def)
  moreover have "last_nonempty_cwd cwd_reset_log = JStr (ascii ''/a'')"
    by (simp add: last_nonempty_cwd_def objects_of_def line_cwd_def cwd_candidates_def
          first_present_def present_def map_filter_simps cwd_reset_log_def sample_defs ascii_def)
  ultimately show ?thesis by simp
qed

text \<open>
  C9. The extraction returns the pair of empty strings when the expanded path names
  nothing, when the file cannot be opened, when reading it fails, and when any other
  exception leaves the loop over its lines. (The function is total: every exception of
  its body ends in this result.)
\<close>

theorem extract_empty_on_failure:
  assumes "files env (expanduser env p) = NoSuchPath
           \<or> files env (expanduser env p) = OpenFails
           \<or> (\<exists>ls. files env (expanduser env p) = Opens ls True)
           \<or> (\<exists>ls b e. files env (expanduser env p) = Opens ls b
                 \<and> snd (scan_lines scan_init ls) = Some e)"
  shows "fst (extract_last_message_from_jsonl env p) = (JStr [], JStr [])"
proof -
  consider (missing) "files env (expanduser env p) = NoSuchPath"
    | (unopenable) "files env (expanduser env p) = OpenFails"
    | (read) ls where "files env (expanduser env p) = Opens ls True"
    | (raised) ls b e where "files env (expanduser env p) = Opens ls b"
        and "snd (scan_lines scan_init ls) = Some e"
    using assms by blast
  then show ?thesis
  proof cases
    case missing
    then show ?thesis
      by (simp add: extract_last_message_from_jsonl_def empty_result_def)
  next
    case unopenable
    then show ?thesis
      by (simp add: extract_last_message_from_jsonl_def empty_result_def)
  next
    case read
    then show ?thesis
      by (cases "scan_lines scan_init ls")
         (auto simp: extract_last_message_from_jsonl_def empty_result_def split: option.splits)
  next
    case raised
    then show ?thesis
      by (cases "scan_lines scan_init ls")
         (auto simp: extract_last_message_from_jsonl_def empty_result_def split: option.splits)
  qed
qed

theorem extract_empty_on_failure_witness:
  "fst (extract_last_message_from_jsonl (file_env three_texts_log) (ascii ''~/none.jsonl''))
     = (JStr [], JStr [])
   \<and> fst (extract_last_message_from_jsonl
            (sample_env OpenFails GetRaises PostRaises) log_path) = (JStr [], JStr [])
   \<and> fst (extract_last_message_from_jsonl
            (sample_env (Opens three_texts_log True) GetRaises PostRaises) log_path)
       = (JStr [], JStr [])
   \<and> snd (scan_lines scan_init null_line_log) = Some TypeError
   \<and> fst (extract_last_message_from_jsonl (file_env null_line_log) log_path)
       = (JStr [], JStr [])"
proof -
  have a: "files (file_env three_texts_log)
             (expanduser (file_env three_texts_log) (ascii ''~/none.jsonl'')) = NoSuchPath"
    by (simp add: sample_defs ascii_def)
  have b: "files (sample_env OpenFails GetRaises PostRaises)
             (expanduser (sample_env OpenFails GetRaises PostRaises) log_path) = OpenFails"
    by (simp add: sample_defs)
  have c: "\<exists>ls. files (sample_env (Opens three_texts_log True) GetRaises PostRaises)
             (expanduser (sample_env (Opens three_texts_log True) GetRaises PostRaises) log_path)
             = Opens ls True"
    by (simp add: sample_defs)
  have e: "snd (scan_lines scan_init null_line_log) = Some TypeError"
    by (simp add: null_line_log_def scan_init_def find_cwd_def Let_def sample_defs ascii_def)
  have "files (file_env null_line_log) (expanduser (file_env null_line_log) log_path)
          = Opens null_line_log False"
    by (simp add: sample_defs)
  with e have d: "\<exists>ls b e. files (file_env null_line_log)
                     (expanduser (file_env null_line_log) log_path) = Opens ls b
                   \<and> snd (scan_lines scan_init ls) = Some e"
    by blast
  show ?thesis
    using extract_empty_on_failure [of "file_env three_texts_log" "ascii ''~/none.jsonl''"]
      extract_empty_on_failure [of "sample_env OpenFails GetRaises PostRaises" log_path]
      extract_empty_on_failure
        [of "sample_env (Opens three_texts_log True) GetRaises PostRaises" log_path]
      extract_empty_on_failure [of "file_env null_line_log" log_path]
      a b c d e
    by blast
qed

subsection \<open>Lines that are not records\<close>

text \<open>
  C3 on the code. A line that is valid JSON but not an object (here \<open>null\<close>) makes
  the first test on the parsed value raise, outside the handler of \<open>JSONDecodeError\<close>;
  the outer handler then returns the empty pair, and the text read from the line before
  is lost. Without that line the text is returned.
\<close>

theorem non_object_line_discards_results:
  "fst (extract_last_message_from_jsonl (file_env null_line_log) log_path)
     = (JStr [], JStr [])
   \<and> fst (extract_last_message_from_jsonl (file_env [text_line (ascii ''hello'')]) log_path)
     = (JStr (ascii ''hello''), JStr [])"
  by (simp add: extract_defs null_line_log_def sample_defs ascii_def)

text \<open>
  The same happens for every line that parses to a value other than an object, wherever
  it stands in the file.
\<close>

lemma process_non_object: "line_object (Parsed v) = None \<Longrightarrow> \<exists>e. process_line st (Parsed v) = Inl e"
  by (cases v) simp_all

lemma scan_lines_non_object:
  "Parsed v \<in> set ls \<Longrightarrow> line_object (Parsed v) = None \<Longrightarrow> \<exists>e. snd (scan_lines st ls) = Some e"
proof (induction ls arbitrary: st)
  case Nil
  then show ?case by simp
next
  case (Cons l ls)
  show ?case
  proof (cases "process_line st l")
    case (Inl e)
    then show ?thesis by simp
  next
    case (Inr st')
    with process_non_object [OF Cons.prems(2), of st] have "l \<noteq> Parsed v"
      by auto
    with Cons.prems have "Parsed v \<in> set ls"
      by simp
    from Cons.IH [OF this Cons.prems(2), of st'] Inr show ?thesis
      by simp
  qed
qed

lemma non_object_line_aborts:
  assumes "files env (expanduser env p) = Opens ls b" and "Parsed v \<in> set ls"
    and "line_object (Parsed v) = None"
  shows "fst (extract_last_message_from_jsonl env p) = (JStr [], JStr [])"
proof -
  from scan_lines_non_object [OF assms(2,3), of scan_init]
  obtain st e where "scan_lines scan_init ls = (st, Some e)"
    by (cases "scan_lines scan_init ls") auto
  with assms(1) show ?thesis
    by (simp add: extract_last_message_from_jsonl_def empty_result_def)
qed

lemma process_line_same_acc:
  assumes "last_message_text st = last_message_text st'" and "cwd st = cwd st'"
  shows "(case process_line st l of
            Inl e \<Rightarrow> process_line st' l = Inl e
          | Inr s \<Rightarrow> (\<exists>s'. process_line st' l = Inr s'
                        \<and> last_message_text s = last_message_text s' \<and> cwd s = cwd s'))"
proof (cases l)
  case Blank
  with assms show ?thesis by simp
next
  case Malformed
  with assms show ?thesis by simp
next
  case (Parsed v)
  show ?thesis
  proof (cases v)
    case (JObj d)
    obtain s where s: "process_data (st\<lparr>line_count := line_count st + 1\<rparr>) (JObj d) = Inr s"
      using process_object_returns by blast
    obtain s' where s': "process_data (st'\<lparr>line_count := line_count st' + 1\<rparr>) (JObj d) = Inr s'"
      using process_object_returns by blast
    from process_object_text [OF s] process_object_text [OF s']
      process_object_cwd [OF s] process_object_cwd [OF s'] assms
    have "last_message_text s = last_message_text s'" and "cwd s = cwd s'"
      by (simp_all split: option.splits)
    with s s' show ?thesis
      by (simp add: Parsed JObj del: process_data.simps)
  qed (simp_all add: Parsed)
qed

lemma scan_lines_skips_malformed:
  assumes "last_message_text st = last_message_text st'" and "cwd st = cwd st'"
  shows "snd (scan_lines st' (filter (\<lambda>l. l \<noteq> Malformed) ls)) = snd (scan_lines st ls)
         \<and> (snd (scan_lines st ls) = None \<longrightarrow>
              last_message_text (fst (scan_lines st' (filter (\<lambda>l. l \<noteq> Malformed) ls)))
                = last_message_text (fst (scan_lines st ls))
              \<and> cwd (fst (scan_lines st' (filter (\<lambda>l. l \<noteq> Malformed) ls)))
                = cwd (fst (scan_lines st ls)))"
  using assms
proof (induction ls arbitrary: st st')
  case Nil
  then show ?case by simp
next
  case (Cons l ls)
  show ?case
  proof (cases "l = Malformed")
    case True
    have "scan_lines st (l # ls)
            = scan_lines (st\<lparr>line_count := line_count st + 1,
                err := err st @ [DebugJsonError (line_count st + 1)]\<rparr>) ls"
      by (simp add: True)
    moreover have "filter (\<lambda>l. l \<noteq> Malformed) (l # ls) = filter (\<lambda>l. l \<noteq> Malformed) ls"
      by (simp add: True)
    ultimately show ?thesis
      using Cons.IH [of "st\<lparr>line_count := line_count st + 1,
                err := err st @ [DebugJsonError (line_count st + 1)]\<rparr>" st'] Cons.prems
      by simp
  next
    case False
    then have fl: "filter (\<lambda>l. l \<noteq> Malformed) (l # ls) = l # filter (\<lambda>l. l \<noteq> Malformed) ls"
      by simp
    show ?thesis
    proof (cases "process_line st l")
      case (Inl e)
      with process_line_same_acc [OF Cons.prems, of l] have "process_line st' l = Inl e"
        by simp
      with Inl show ?thesis
        unfolding fl by simp
    next
      case (Inr s)
      with process_line_same_acc [OF Cons.prems, of l]
      obtain s' where s': "process_line st' l = Inr s'"
        and eq: "last_message_text s = last_message_text s'" "cwd s = cwd s'"
        by auto
      from Cons.IH [OF eq] Inr s' show ?thesis
        unfolding fl by simp
    qed
  qed
qed

text \<open>
  Lines on which \<open>json.loads\<close> raises \<open>JSONDecodeError\<close> are skipped: the pair
  returned is that of the file without them.
\<close>

lemma malformed_lines_are_skipped:
  assumes "files env (expanduser env p) = Opens ls b"
    and "files env' (expanduser env' p) = Opens (filter (\<lambda>l. l \<noteq> Malformed) ls) b"
  shows "fst (extract_last_message_from_jsonl env' p) = fst (extract_last_message_from_jsonl env p)"
proof -
  obtain st e where s: "scan_lines scan_init ls = (st, e)"
    by (cases "scan_lines scan_init ls")
  obtain st' e' where s': "scan_lines scan_init (filter (\<lambda>l. l \<noteq> Malformed) ls) = (st', e')"
    by (cases "scan_lines scan_init (filter (\<lambda>l. l \<noteq> Malformed) ls)")
  from scan_lines_skips_malformed [of scan_init scan_init ls] s s'
  have "e' = e" and "e = None \<longrightarrow> last_message_text st' = last_message_text st \<and> cwd st' = cwd st"
    by simp_all
  with assms s s' show ?thesis
    by (cases e) (simp_all add: extract_last_message_from_jsonl_def)
qed

lemma malformed_lines_are_skipped_witness:
  "fst (extract_last_message_from_jsonl (file_env corrupt_log) log_path)
     = (JStr (ascii ''last''), JStr (ascii ''/home/u/proj''))
   \<and> fst (extract_last_message_from_jsonl
          (file_env [text_line (ascii ''first''), cwd_line (ascii ''/home/u/proj''),
                     text_line (ascii ''last'')]) log_path)
     = (JStr (ascii ''last''), JStr (ascii ''/home/u/proj''))"
proof -
  let ?good = "[text_line (ascii ''first''), cwd_line (ascii ''/home/u/proj''),
                text_line (ascii ''last'')]"
  have a: "files (file_env corrupt_log) (expanduser (file_env corrupt_log) log_path)
             = Opens corrupt_log False"
    by (simp add: sample_defs)
  have b: "files (file_env ?good) (expanduser (file_env ?good) log_path)
             = Opens (filter (\<lambda>l. l \<noteq> Malformed) corrupt_log) False"
    by (simp add: corrupt_log_def sample_defs)
  have c: "fst (extract_last_message_from_jsonl (file_env ?good) log_path)
             = (JStr (ascii ''last''), JStr (ascii ''/home/u/proj''))"
    by (simp add: extract_defs sample_defs ascii_def)
  from malformed_lines_are_skipped [OF a b] c show ?thesis
    by simp
qed

subsection \<open>Strings\<close>

lemma str_in_subset: "str_in kw s \<Longrightarrow> set kw \<subseteq> set s"
proof (induction s)
  case Nil
  then show ?case by simp
next
  case (Cons c cs)
  from Cons.prems have "take (length kw) (c # cs) = kw \<or> str_in kw cs"
    by simp
  then show ?case
  proof
    assume "take (length kw) (c # cs) = kw"
    then have "set kw = set (take (length kw) (c # cs))"
      by simp
    then show ?thesis
      using set_take_subset [of "length kw" "c # cs"] by blast
  next
    assume "str_in kw cs"
    with Cons.IH show ?thesis by auto
  qed
qed

lemma lower_cp_not_capital_A: "lower_cp c \<noteq> 0x41"
  by (auto simp: lower_cp_def)

lemma capital_A_not_in_lower: "0x41 \<notin> set (str_lower s)"
  using lower_cp_not_capital_A by (auto simp: str_lower_def)

lemma keyword_never_matches: "any_keyword_in error_keywords (str_lower s) = False"
proof -
  have "0x41 \<in> set (ascii ''API Error:'')"
    by (simp add: ascii_def)
  then have "\<not> str_in (ascii ''API Error:'') (str_lower s)"
    using str_in_subset [of "ascii ''API Error:''" "str_lower s"] capital_A_not_in_lower [of s]
    by blast
  then show ?thesis
    by (simp add: error_keywords_def)
qed

lemma detect_error_never_true: "detect_error v \<noteq> Inr True"
  by (cases v) (simp_all add: detect_error_def keyword_never_matches)

lemma str_lstrip_id: "s \<noteq> [] \<Longrightarrow> \<not> isspace (hd s) \<Longrightarrow> str_lstrip s = s"
  by (cases s) (simp_all add: str_lstrip_def)

lemma str_rstrip_keeps:
  "\<not> isspace c \<Longrightarrow> str_rstrip (a @ c # r) = a @ c # str_rstrip r"
  by (simp add: str_rstrip_def dropWhile_append)

lemma str_rstrip_id: "s \<noteq> [] \<Longrightarrow> \<not> isspace (last s) \<Longrightarrow> str_rstrip s = s"
proof -
  assume "s \<noteq> []" and n: "\<not> isspace (last s)"
  then have "s = butlast s @ [last s]"
    by simp
  then have "str_rstrip s = str_rstrip (butlast s @ last s # [])"
    by simp
  also have "\<dots> = butlast s @ last s # str_rstrip []"
    using n by (rule str_rstrip_keeps)
  also have "\<dots> = s"
    using \<open>s \<noteq> []\<close> by (simp add: str_rstrip_def)
  finally show ?thesis .
qed

lemma str_strip_id:
  "s \<noteq> [] \<Longrightarrow> \<not> isspace (hd s) \<Longrightarrow> \<not> isspace (last s) \<Longrightarrow> str_strip s = s"
  by (simp add: str_strip_def str_lstrip_id str_rstrip_id)

lemma str_strip_leading: "isspace c \<Longrightarrow> str_strip (c # s) = str_strip s"
  by (simp add: str_strip_def str_lstrip_def)


subsection \<open>The parts of the card\<close>

lemma truncation_marker_end: "truncation_marker \<noteq> [] \<and> \<not> isspace (last truncation_marker)"
  by (simp add: truncation_marker_def ascii_def isspace_def)


lemma warning_line_start: "warning_line \<noteq> [] \<and> \<not> isspace (hd warning_line)"
  by (simp add: warning_line_def warning_banner_def ascii_def isspace_def)

lemma project_label_start:
  "project_label wd = Inr label \<Longrightarrow> label \<noteq> [] \<Longrightarrow> \<not> isspace (hd label)"
  by (cases wd)
     (auto simp: label_project_def label_path_def ascii_def isspace_def Let_def
           split: if_splits)


lemma format_stop_message_card:
  assumes "fst (stop_extraction env d) = (JStr s, wd)" and "s \<noteq> []"
    and "project_label wd = Inr label"
  shows "fst (format_stop_message env d) =
           Inr \<lparr>header_title = title_completed, header_template = ascii ''green'',
                body_content =
                  str_strip (label @ (if stop_hook_active d = Some True then warning_line else [])
                    @ (if length s > 1000 then take 1000 s @ truncation_marker else s))\<rparr>"
  using assms
  by (cases "stop_hook_active d")
     (simp_all add: format_stop_message_def format_card_def detect_error_def
        keyword_never_matches card_header_def Let_def)

text \<open>
  C5, as the code has it. For an extracted message of more than 1000 characters the body
  is the project label (if any), the warning line (if the flag is set), the first 1000
  characters of the message and the continuation marker, with the white space at both
  ends of the whole removed. So the message portion is exactly those 1000 characters
  followed by the marker whenever a label or the warning line stands before it or the
  message does not start with white space.
\<close>

theorem long_message_is_truncated:
  assumes "fst (stop_extraction env d) = (JStr s, wd)" and "length s > 1000"
    and "project_label wd = Inr label"
    and "w = (if stop_hook_active d = Some True then warning_line else [])"
  shows "length (take 1000 s) = 1000 \<and> (\<exists>rest. s = take 1000 s @ rest)
         \<and> (\<exists>c. fst (format_stop_message env d) = Inr c
              \<and> body_content c = str_strip (label @ w @ take 1000 s @ truncation_marker)
              \<and> (label \<noteq> [] \<or> w \<noteq> [] \<or> \<not> isspace (hd s) \<longrightarrow>
                   body_content c = label @ w @ take 1000 s @ truncation_marker))"
proof -
  from assms(2) have ne: "s \<noteq> []"
    by auto
  have "s = take 1000 s @ drop 1000 s"
    by simp
  then have "\<exists>rest. s = take 1000 s @ rest" ..
  moreover have "length (take 1000 s) = 1000"
    using assms(2) by simp
  ultimately have pre: "length (take 1000 s) = 1000 \<and> (\<exists>rest. s = take 1000 s @ rest)"
    by simp
  let ?x = "label @ w @ take 1000 s @ truncation_marker"
  have body: "fst (format_stop_message env d) =
                Inr \<lparr>header_title = title_completed, header_template = ascii ''green'',
                     body_content = str_strip ?x\<rparr>"
    using format_stop_message_card [OF assms(1) ne assms(3)] assms(2,4) by simp
  have "str_strip ?x = ?x" if h: "label \<noteq> [] \<or> w \<noteq> [] \<or> \<not> isspace (hd s)"
  proof -
    have l: "\<not> isspace (last ?x)"
      using truncation_marker_end by simp
    have t: "take 1000 s \<noteq> [] \<and> hd (take 1000 s) = hd s"
      using ne by (cases s) simp_all
    have "\<not> isspace (hd ?x)"
    proof (cases "label = []")
      case False
      then show ?thesis
        using project_label_start [OF assms(3)] by simp
    next
      case True
      show ?thesis
      proof (cases "w = []")
        case False
        then have "w = warning_line"
          using assms(4) by (simp split: if_splits)
        then show ?thesis
          using True warning_line_start by simp
      next
        case w: True
        with True h have "\<not> isspace (hd s)"
          by simp
        then show ?thesis
          using True w t by simp
      qed
    qed
    moreover have "?x \<noteq> []"
      using truncation_marker_end by simp
    ultimately show ?thesis
      using l by (intro str_strip_id)
  qed
  with body pre show ?thesis
    by simp
qed

lemma extract_long_message:
  "fst (extract_last_message_from_jsonl (file_env [text_line long_message]) log_path)
     = (JStr long_message, JStr [])"
  by (simp add: extract_defs sample_defs ascii_def long_message_def)

theorem long_message_is_truncated_witness:
  "fst (stop_extraction (file_env [text_line long_message]) (stop_event False (Some log_path)))
     = (JStr long_message, JStr [])
   \<and> length long_message > 1000
   \<and> project_label (JStr []) = Inr []
   \<and> map_sum id body_content
        (fst (format_stop_message (file_env [text_line long_message])
               (stop_event False (Some log_path))))
     = Inr (replicate 1000 0x61 @ truncation_marker)"
proof -
  have e: "fst (stop_extraction (file_env [text_line long_message])
                 (stop_event False (Some log_path))) = (JStr long_message, JStr [])"
    using extract_long_message by (simp add: stop_extraction_def stop_event_def log_path_def ascii_def)
  have n: "length long_message > 1000"
    by (simp add: long_message_def)
  have p: "project_label (JStr []) = Inr []"
    by simp
  have w: "[] = (if stop_hook_active (stop_event False (Some log_path)) = Some True
                 then warning_line else [])"
    by (simp add: stop_event_def)
  have h: "\<not> isspace (hd long_message)"
    by (simp add: long_message_def isspace_def)
  have t: "take 1000 long_message = replicate 1000 0x61"
    by (simp add: long_message_def)
  from long_message_is_truncated [OF e n p w] h t e n p show ?thesis
    by auto
qed

lemma extract_spaced_message:
  "fst (extract_last_message_from_jsonl (file_env [text_line spaced_message]) log_path)
     = (JStr spaced_message, JStr [])"
  by (simp add: extract_defs sample_defs ascii_def spaced_message_def)

text \<open>
  C5, as the claim states it, fails: with no label and no warning line, a message that
  starts with a space loses it when the body is stripped, and the body holds 999
  characters of the message before the marker, not its first 1000.
\<close>

theorem leading_space_is_stripped:
  "length spaced_message > 1000
   \<and> fst (format_stop_message (file_env [text_line spaced_message])
            (stop_event False (Some log_path)))
     = Inr \<lparr>header_title = title_completed, header_template = ascii ''green'',
            body_content = replicate 999 0x61 @ truncation_marker\<rparr>
   \<and> replicate 999 0x61 @ truncation_marker \<noteq> take 1000 spaced_message @ truncation_marker"
proof -
  have e: "fst (stop_extraction (file_env [text_line spaced_message])
                 (stop_event False (Some log_path))) = (JStr spaced_message, JStr [])"
    using extract_spaced_message
    by (simp add: stop_extraction_def stop_event_def log_path_def ascii_def)
  have n: "length spaced_message > 1000" and ne: "spaced_message \<noteq> []"
    by (simp_all add: spaced_message_def)
  have t: "take 1000 spaced_message = 0x20 # replicate 999 0x61"
    by (simp add: spaced_message_def take_Cons')
  have "str_strip (take 1000 spaced_message @ truncation_marker)
          = str_strip (replicate 999 0x61 @ truncation_marker)"
    unfolding t by (simp add: str_strip_leading isspace_def)
  also have "\<dots> = replicate 999 0x61 @ truncation_marker"
    using truncation_marker_end
    by (intro str_strip_id) (simp_all add: isspace_def hd_append)
  finally have s: "str_strip (take 1000 spaced_message @ truncation_marker)
                     = replicate 999 0x61 @ truncation_marker" .
  have "fst (format_stop_message (file_env [text_line spaced_message])
              (stop_event False (Some log_path)))
          = Inr \<lparr>header_title = title_completed, header_template = ascii ''green'',
                 body_content = replicate 999 0x61 @ truncation_marker\<rparr>"
    using format_stop_message_card [OF e ne, of "[]"] n s
    by (simp add: stop_event_def)
  moreover have "length (replicate 999 (0x61::nat) @ truncation_marker)
                   \<noteq> length (take 1000 spaced_message @ truncation_marker)"
    by (simp add: t)
  then have "replicate 999 0x61 @ truncation_marker \<noteq> take 1000 spaced_message @ truncation_marker"
    by metis
  ultimately show ?thesis
    using n by simp
qed

text \<open>
  C1 on the code. The message is lowered but the keyword \<open>"API Error:"\<close> is not, so
  the test \<open>kw in lower_msg\<close> looks for capitals in a string that has none: a message
  that holds the keyword is not classified as an error, although its lowered form holds
  the lowered keyword, and the card of the two-line transcript of scenario A is green.
\<close>

theorem api_error_is_not_detected:
  "str_in (str_lower (ascii ''API Error:'')) (str_lower (ascii ''API Error: boom''))
   \<and> detect_error (JStr (ascii ''API Error: boom'')) = Inr False
   \<and> fst (format_stop_message
            (file_env [text_line (ascii ''first''), text_line (ascii ''API Error: boom'')])
            (stop_event False (Some log_path)))
     = Inr \<lparr>header_title = title_completed, header_template = ascii ''green'',
            body_content = ascii ''API Error: boom''\<rparr>"
proof -
  have a: "str_in (str_lower (ascii ''API Error:'')) (str_lower (ascii ''API Error: boom''))"
    by (simp add: str_lower_def lower_cp_def ascii_def)
  have b: "detect_error (JStr (ascii ''API Error: boom'')) = Inr False"
    by (simp add: detect_error_def keyword_never_matches)
  have e: "fst (stop_extraction
                 (file_env [text_line (ascii ''first''), text_line (ascii ''API Error: boom'')])
                 (stop_event False (Some log_path)))
             = (JStr (ascii ''API Error: boom''), JStr [])"
    by (simp add: stop_extraction_def extract_defs sample_defs ascii_def)
  have s: "str_strip (ascii ''API Error: boom'') = ascii ''API Error: boom''"
    by (intro str_strip_id) (simp_all add: ascii_def isspace_def)
  have "fst (format_stop_message
              (file_env [text_line (ascii ''first''), text_line (ascii ''API Error: boom'')])
              (stop_event False (Some log_path)))
          = Inr \<lparr>header_title = title_completed, header_template = ascii ''green'',
                 body_content = ascii ''API Error: boom''\<rparr>"
    using format_stop_message_card [OF e, of "[]"] s
    by (simp add: stop_event_def ascii_def)
  with a b show ?thesis
    by simp
qed

subsection \<open>Header and warning line\<close>

lemma format_stop_message_parts:
  assumes "fst (format_stop_message env d) = Inr c"
  shows "\<exists>b m label.
           detect_error (fst (fst (stop_extraction env d))) = Inr b
           \<and> project_label (snd (fst (stop_extraction env d))) = Inr label
           \<and> header_title c = fst (card_header b) \<and> header_template c = snd (card_header b)
           \<and> body_content c =
               str_strip (label @ (if stop_hook_active d = Some True then warning_line else []) @ m)"
  using assms
  by (cases "stop_hook_active d")
     (auto simp: format_stop_message_def format_card_def Let_def split: sum.splits)








subsection \<open>Events that are not Stop events\<close>

text \<open>
  C8. An event whose type, read or inferred, is not \<open>Stop\<close> (a Notification event,
  or any other type) causes no effect at all, so no request on either channel; the
  object printed reports success with a message that names the type, and the exit code
  is 0.
\<close>

theorem other_events_are_ignored:
  assumes "resolve_event_type d \<noteq> ascii ''Stop''"
  shows "main env (Some d) =
           ([], \<lparr>res_success = True,
                 res_message = Some (ignored_prefix @ resolve_event_type d),
                 res_error = None\<rparr>, 0)"
  using assms by (simp add: main_def ignored_result_def Let_def)

theorem other_events_are_ignored_witness:
  "resolve_event_type notification_event = ascii ''Notification''
   \<and> main (file_env three_texts_log) (Some notification_event) =
       ([], \<lparr>res_success = True, res_message = Some (ignored_prefix @ ascii ''Notification''),
              res_error = None\<rparr>, 0)
   \<and> resolve_event_type tool_event = ascii ''ToolUse''
   \<and> main (file_env three_texts_log) (Some tool_event) =
       ([], \<lparr>res_success = True, res_message = Some (ignored_prefix @ ascii ''ToolUse''),
              res_error = None\<rparr>, 0)"
proof -
  have n: "resolve_event_type notification_event = ascii ''Notification''"
    by (simp add: resolve_event_type_def notification_event_def present_def)
  have t: "resolve_event_type tool_event = ascii ''ToolUse''"
    by (simp add: resolve_event_type_def tool_event_def ascii_def)
  have n': "resolve_event_type notification_event \<noteq> ascii ''Stop''"
    unfolding n by (simp add: ascii_def)
  have t': "resolve_event_type tool_event \<noteq> ascii ''Stop''"
    unfolding t by (simp add: ascii_def)
  from other_events_are_ignored [OF n', of "file_env three_texts_log"]
    other_events_are_ignored [OF t', of "file_env three_texts_log"] n t
  show ?thesis
    by simp
qed

subsection \<open>Stop events\<close>

lemma extract_bark_get:
  "extract_last_message_from_jsonl (env\<lparr>bark_get := b\<rparr>) p = extract_last_message_from_jsonl env p"
  by (simp add: extract_last_message_from_jsonl_def)

lemma stop_extraction_bark_get: "stop_extraction (env\<lparr>bark_get := b\<rparr>) d = stop_extraction env d"
  by (simp add: stop_extraction_def extract_bark_get Let_def)

lemma format_stop_message_bark_get:
  "format_stop_message (env\<lparr>bark_get := b\<rparr>) d = format_stop_message env d"
  by (simp add: format_stop_message_def stop_extraction_bark_get)

lemma send_to_feishu_bark_get: "send_to_feishu (env\<lparr>bark_get := b\<rparr>) c = send_to_feishu env c"
  by (simp add: send_to_feishu_def split: post_response.splits)

lemma webhook_posts_append: "webhook_posts (xs @ ys) = webhook_posts xs @ webhook_posts ys"
  by (induction xs rule: webhook_posts.induct) simp_all

lemma webhook_posts_stderr: "webhook_posts (map Stderr es) = []"
  by (induction es) simp_all

lemma webhook_posts_push: "webhook_posts (send_ios_push_notification env t m) = []"
  by (simp add: send_ios_push_notification_def split: bark_response.splits option.splits json.splits)




lemma send_to_feishu_posts:
  "webhook_posts (snd (send_to_feishu env c)) = (if WEBHOOK_URL env = [] then [] else [(WEBHOOK_URL env, c)])
   \<and> push_requests (snd (send_to_feishu env c)) = []
   \<and> fst (send_to_feishu env c) = (WEBHOOK_URL env \<noteq> [] \<and> accepted (feishu_post env c))"
  by (cases "feishu_post env c") (auto simp: send_to_feishu_def)

text \<open>The push of a Stop event: what it does, given what the extraction returned.\<close>

lemma push_stop_cases:
  "push_stop env d =
     (let lm = fst (fst (stop_extraction env d)); errs = map Stderr (snd (stop_extraction env d)) in
      if truthy lm then
        (case slice_to 100 lm of
           Inl e \<Rightarrow> (errs, Some e)
         | Inr m \<Rightarrow> (errs @ send_ios_push_notification env push_title m, None))
      else (errs @ send_ios_push_notification env push_title (JStr session_ended), None))"
  by (simp add: push_stop_def stop_extraction_def Let_def empty_result_def)

lemma push_stop_bark_get: "snd (push_stop (env\<lparr>bark_get := b\<rparr>) d) = snd (push_stop env d)"
  by (simp add: push_stop_cases stop_extraction_bark_get Let_def split: sum.splits)

lemma push_stop_webhook_posts: "webhook_posts (fst (push_stop env d)) = []"
  by (simp add: push_stop_cases Let_def webhook_posts_append webhook_posts_stderr
        webhook_posts_push split: sum.splits)

lemma detect_error_ok_is_str: "detect_error v = Inr b \<Longrightarrow> truthy v \<Longrightarrow> \<exists>s. v = JStr s"
  by (cases v) (simp_all add: detect_error_def)

lemma push_stop_after_format:
  assumes "fst (format_stop_message env d) = Inr c"
  shows "\<exists>m. push_stop env d =
           (map Stderr (snd (stop_extraction env d)) @ send_ios_push_notification env push_title m, None)
         \<and> (m = JStr session_ended
            \<or> (\<exists>s. fst (fst (stop_extraction env d)) = JStr s \<and> s \<noteq> [] \<and> m = JStr (take 100 s)))"
proof (cases "truthy (fst (fst (stop_extraction env d)))")
  case True
  from format_stop_message_parts [OF assms]
  obtain b where "detect_error (fst (fst (stop_extraction env d))) = Inr b"
    by blast
  from detect_error_ok_is_str [OF this True]
  obtain s where s: "fst (fst (stop_extraction env d)) = JStr s"
    by blast
  with True have "s \<noteq> []"
    by simp
  then have "push_stop env d =
      (map Stderr (snd (stop_extraction env d))
         @ send_ios_push_notification env push_title (JStr (take 100 s)), None)"
    by (simp add: push_stop_cases s Let_def)
  with s \<open>s \<noteq> []\<close> show ?thesis
    by blast
next
  case False
  then have "push_stop env d =
      (map Stderr (snd (stop_extraction env d))
         @ send_ios_push_notification env push_title (JStr session_ended), None)"
    by (simp add: push_stop_cases Let_def)
  then show ?thesis
    by blast
qed

lemma handle_stop_raised:
  assumes "fst (format_stop_message env d) = Inl e"
  shows "handle_stop env d =
           (map Stderr (snd (format_stop_message env d)), failed_result (StrOf e), 1)"
  using assms by (cases "format_stop_message env d") (simp add: handle_stop_def)

lemma handle_stop_formatted:
  assumes "fst (format_stop_message env d) = Inr c"
  shows "handle_stop env d =
           (map Stderr (snd (format_stop_message env d)) @ fst (push_stop env d)
              @ snd (send_to_feishu env c),
            if fst (send_to_feishu env c) then ok_result else failed_result (Msg feishu_failed),
            if fst (send_to_feishu env c) then 0 else 1)"
proof -
  from push_stop_after_format [OF assms]
  obtain fx where p: "push_stop env d = (fx, None)"
    by blast
  show ?thesis
    using assms p
    by (cases "format_stop_message env d"; cases "send_to_feishu env c")
       (auto simp: handle_stop_def)
qed

lemma main_stop: "resolve_event_type d = ascii ''Stop'' \<Longrightarrow> main env (Some d) = handle_stop env d"
  by (simp add: main_def Let_def)

lemma handle_stop_webhook_posts:
  "webhook_posts (fst (handle_stop env d)) =
     (case fst (format_stop_message env d) of
        Inl e \<Rightarrow> []
      | Inr c \<Rightarrow> if WEBHOOK_URL env = [] then [] else [(WEBHOOK_URL env, c)])"
proof (cases "fst (format_stop_message env d)")
  case (Inl e)
  then show ?thesis
    by (simp add: handle_stop_raised webhook_posts_stderr)
next
  case (Inr c)
  then show ?thesis
    using send_to_feishu_posts [of env c]
    by (simp add: handle_stop_formatted webhook_posts_append webhook_posts_stderr
          push_stop_webhook_posts)
qed

lemma handle_stop_result:
  "snd (handle_stop env d) =
     (case fst (format_stop_message env d) of
        Inl e \<Rightarrow> (failed_result (StrOf e), 1)
      | Inr c \<Rightarrow>
          if WEBHOOK_URL env \<noteq> [] \<and> accepted (feishu_post env c) then (ok_result, 0)
          else (failed_result (Msg feishu_failed), 1))"
proof (cases "fst (format_stop_message env d)")
  case (Inl e)
  then show ?thesis
    by (simp add: handle_stop_raised)
next
  case (Inr c)
  then show ?thesis
    using send_to_feishu_posts [of env c]
    by (simp add: handle_stop_formatted)
qed

lemma handle_stop_outcome:
  "(if webhook_delivered env (fst (handle_stop env d))
    then snd (handle_stop env d) = (ok_result, 0)
    else res_success (fst (snd (handle_stop env d))) = False \<and> snd (snd (handle_stop env d)) = 1)"
  by (cases "fst (format_stop_message env d)")
     (simp_all add: handle_stop_webhook_posts handle_stop_result webhook_delivered_def
        failed_result_def)

lemma handle_stop_bark_get:
  "snd (handle_stop (env\<lparr>bark_get := b\<rparr>) d) = snd (handle_stop env d)
   \<and> webhook_posts (fst (handle_stop (env\<lparr>bark_get := b\<rparr>) d))
       = webhook_posts (fst (handle_stop env d))"
  by (simp add: handle_stop_webhook_posts handle_stop_result format_stop_message_bark_get
        split: sum.splits)

text \<open>
  C7. For a Stop event, the object printed and the exit code do not change with the
  answers of the push service, whatever they are (an exception, a status other than
  200, an error body), nor do the posts to the webhook. The result is the success
  object with exit code 0 when the webhook delivery succeeded, and a failure object with
  exit code 1 when it did not. When a card was formatted and a webhook URL is
  configured, that card is posted, once.
\<close>

theorem stop_outcome_follows_webhook:
  assumes "resolve_event_type d = ascii ''Stop''"
  shows "snd (main (env\<lparr>bark_get := b\<rparr>) (Some d)) = snd (main env (Some d))
         \<and> webhook_posts (fst (main (env\<lparr>bark_get := b\<rparr>) (Some d)))
             = webhook_posts (fst (main env (Some d)))
         \<and> (if webhook_delivered env (fst (main env (Some d)))
             then snd (main env (Some d)) = (ok_result, 0)
             else res_success (fst (snd (main env (Some d)))) = False
                  \<and> snd (snd (main env (Some d))) = 1)
         \<and> (\<forall>c. fst (format_stop_message env d) = Inr c \<and> WEBHOOK_URL env \<noteq> [] \<longrightarrow>
               webhook_posts (fst (main env (Some d))) = [(WEBHOOK_URL env, c)])"
proof -
  have m: "main env (Some d) = handle_stop env d"
    and m': "main (env\<lparr>bark_get := b\<rparr>) (Some d) = handle_stop (env\<lparr>bark_get := b\<rparr>) d"
    using assms by (simp_all add: main_stop)
  have "\<forall>c. fst (format_stop_message env d) = Inr c \<and> WEBHOOK_URL env \<noteq> [] \<longrightarrow>
          webhook_posts (fst (handle_stop env d)) = [(WEBHOOK_URL env, c)]"
    by (simp add: handle_stop_webhook_posts)
  with handle_stop_bark_get [where env = env and b = b and d = d]
    handle_stop_outcome [where env = env and d = d] show ?thesis
    unfolding m m' by blast
qed

lemma done_event_is_stop: "resolve_event_type done_event = ascii ''Stop''"
  by (simp add: resolve_event_type_def done_event_def stop_event_def ascii_def)

lemma done_extraction:
  "fst (stop_extraction (done_env b f) done_event) = (JStr (ascii ''API Error: boom''), JStr [])"
  by (simp add: stop_extraction_def extract_defs done_env_def done_event_def sample_defs ascii_def)

lemma done_format: "fst (format_stop_message (done_env b f) done_event) = Inr done_card"
proof -
  have s: "str_strip (ascii ''API Error: boom'') = ascii ''API Error: boom''"
    by (intro str_strip_id) (simp_all add: ascii_def isspace_def)
  show ?thesis
    using format_stop_message_card [OF done_extraction, of "[]" b f] s
    by (simp add: done_event_def stop_event_def done_card_def ascii_def)
qed

theorem stop_outcome_follows_webhook_witness:
  "resolve_event_type done_event = ascii ''Stop''
   \<and> snd (main (done_env (Response 200 None) (PostStatus 200)) (Some done_event)) = (ok_result, 0)
   \<and> snd (main ((done_env (Response 200 None) (PostStatus 200))\<lparr>bark_get := \<lambda>t m. GetRaises\<rparr>)
             (Some done_event)) = (ok_result, 0)
   \<and> webhook_posts
        (fst (main ((done_env (Response 200 None) (PostStatus 200))\<lparr>bark_get := \<lambda>t m. GetRaises\<rparr>)
                (Some done_event)))
       = [(ascii ''https://hook.example'', done_card)]
   \<and> res_success (fst (snd (main (done_env GetRaises (PostStatus 500)) (Some done_event)))) = False
   \<and> snd (snd (main (done_env GetRaises (PostStatus 500)) (Some done_event))) = 1"
proof -
  let ?ok = "done_env (Response 200 None) (PostStatus 200)"
  let ?ko = "done_env GetRaises (PostStatus 500)"
  have u: "WEBHOOK_URL ?ok = ascii ''https://hook.example''"
    "WEBHOOK_URL ?ko = ascii ''https://hook.example''"
    "feishu_post ?ok done_card = PostStatus 200" "feishu_post ?ko done_card = PostStatus 500"
    by (simp_all add: done_env_def sample_env_def)
  have n: "ascii ''https://hook.example'' \<noteq> []"
    by (simp add: ascii_def)
  note ok = stop_outcome_follows_webhook
    [OF done_event_is_stop, where env = ?ok and b = "\<lambda>t m. GetRaises"]
  note ko = stop_outcome_follows_webhook
    [OF done_event_is_stop, where env = ?ko and b = "\<lambda>t m. GetRaises"]
  from ok done_format [of "Response 200 None" "PostStatus 200"] u n
  have p: "webhook_posts (fst (main ?ok (Some done_event))) = [(ascii ''https://hook.example'', done_card)]"
    by simp
  from ko done_format [of GetRaises "PostStatus 500"] u n
  have q: "webhook_posts (fst (main ?ko (Some done_event))) = [(ascii ''https://hook.example'', done_card)]"
    by simp
  have "webhook_delivered ?ok (fst (main ?ok (Some done_event)))"
    by (simp add: webhook_delivered_def p u)
  with ok have r: "snd (main ?ok (Some done_event)) = (ok_result, 0)"
    by simp
  have "\<not> webhook_delivered ?ko (fst (main ?ko (Some done_event)))"
    by (simp add: webhook_delivered_def q u)
  with ko have s: "res_success (fst (snd (main ?ko (Some done_event)))) = False
                   \<and> snd (snd (main ?ko (Some done_event))) = 1"
    by simp
  from ok r p s done_event_is_stop show ?thesis
    by simp
qed



end
